theory Spec2Isabelle
  imports Main
begin

section \<open>The s-expression parser of \<^verbatim>\<open>src/prism/language/sexp/_parse.cpp\<close>\<close>

text \<open>
  The embedding follows the C++ function \<^verbatim>\<open>sexp_parse\<close> line by line.

  \<^item> A code point (\<^verbatim>\<open>Py_UCS4\<close>, and \<^verbatim>\<open>wchar_t\<close> after the cast, taken to be
    32 bits wide as on Linux) is a natural number; the code only compares code points and
    stores them, it never computes with them.  A Python string and a \<^verbatim>\<open>std::wstring\<close>
    are lists of code points.
  \<^item> The Python objects \<^verbatim>\<open>SexpString(text)\<close> and \<^verbatim>\<open>SexpList(children)\<close> are the two
    constructors of the datatype \<open>sexp\<close>; a Python list of nodes is a HOL list.
  \<^item> \<^verbatim>\<open>return NULL\<close> with a Python exception set is the left summand of the result,
    holding the exception class and its message.  \<open>EncodingFailure\<close> is the outcome when
    the message of the first \<^verbatim>\<open>ValueError\<close> cannot be built (see \<open>extra_close_error\<close>).
  \<^item> The loop counter \<^verbatim>\<open>int i\<close> is a natural number: the model covers inputs whose
    length fits an \<^verbatim>\<open>int\<close>.  Reference counting is not modelled.
\<close>

type_synonym ucs4 = nat

datatype sexp = SexpString "ucs4 list" | SexpList "sexp list"

datatype error = AssertionError "ucs4 list" | ValueError "ucs4 list" | EncodingFailure

abbreviation c_quote :: ucs4 where "c_quote \<equiv> 0x22"
abbreviation c_escape :: ucs4 where "c_escape \<equiv> 0x5C"
abbreviation c_lpar :: ucs4 where "c_lpar \<equiv> 0x28"
abbreviation c_rpar :: ucs4 where "c_rpar \<equiv> 0x29"

text \<open>
  \<^verbatim>\<open>_PyUnicode_IsWhitespace\<close>: the \<^verbatim>\<open>switch\<close> over the code points of bidirectional
  type WS, B or S or of category Zs.
\<close>

definition PyUnicode_IsWhitespace :: "ucs4 \<Rightarrow> bool" where
  "PyUnicode_IsWhitespace ch =
     (ch = 0x0009 \<or> ch = 0x000A \<or> ch = 0x000B \<or> ch = 0x000C \<or> ch = 0x000D \<or>
      ch = 0x001C \<or> ch = 0x001D \<or> ch = 0x001E \<or> ch = 0x001F \<or> ch = 0x0020 \<or>
      ch = 0x0085 \<or> ch = 0x00A0 \<or> ch = 0x1680 \<or>
      ch = 0x2000 \<or> ch = 0x2001 \<or> ch = 0x2002 \<or> ch = 0x2003 \<or> ch = 0x2004 \<or>
      ch = 0x2005 \<or> ch = 0x2006 \<or> ch = 0x2007 \<or> ch = 0x2008 \<or> ch = 0x2009 \<or>
      ch = 0x200A \<or> ch = 0x2028 \<or> ch = 0x2029 \<or> ch = 0x202F \<or> ch = 0x205F \<or>
      ch = 0x3000)"

text \<open>
  \<^verbatim>\<open>__Py_ascii_whitespace\<close>: the table of 128 entries; its entries 9 to 13 and 28 to 32
  are 1 and all others are 0.
\<close>

definition Py_ascii_whitespace :: "ucs4 \<Rightarrow> bool" where
  "Py_ascii_whitespace ch = ((9 \<le> ch \<and> ch \<le> 13) \<or> (28 \<le> ch \<and> ch \<le> 32))"

text \<open>
  The macro \<^verbatim>\<open>Py_UNICODE_ISSPACE\<close>, as the file defines it under \<^verbatim>\<open>Py_LIMITED_API\<close>
  (a copy of CPython's own macro, which is used otherwise).
\<close>

definition Py_UNICODE_ISSPACE :: "ucs4 \<Rightarrow> bool" where
  "Py_UNICODE_ISSPACE ch =
     (if ch < 128 then Py_ascii_whitespace ch else PyUnicode_IsWhitespace ch)"

text \<open>
  The parser's local variables.  \<open>return_stack\<close> is the \<^verbatim>\<open>std::vector\<close> of Python lists,
  written with its back (the innermost open list) at the head of the HOL list and its
  front (the top-level list) last.
\<close>

record parser_state =
  return_stack :: "sexp list list"
  quoted :: "ucs4 list"
  escaped :: bool
  terminal :: "ucs4 list"

definition initial_state :: parser_state where
  "initial_state = \<lparr>return_stack = [[]], quoted = [], escaped = False, terminal = []\<rparr>"

text \<open>
  \<^verbatim>\<open>PyList_Append(return_stack.back(), node)\<close>.  The vector is never empty where the code
  calls \<^verbatim>\<open>back()\<close> (lemma \<open>sexp_loop_stack_nonempty\<close> below), so the first equation is
  never used.
\<close>

fun append_back :: "sexp \<Rightarrow> sexp list list \<Rightarrow> sexp list list" where
  "append_back node [] = []"
| "append_back node (children # below) = (children @ [node]) # below"

text \<open>The first \<^verbatim>\<open>switch\<close> (lines 307 to 342): the new \<^verbatim>\<open>cur_char\<close> and \<^verbatim>\<open>terminal\<close>.\<close>

definition escape_terminal :: "ucs4 \<Rightarrow> ucs4 list \<Rightarrow> ucs4 \<times> ucs4 list" where
  "escape_terminal c t =
     (if c = 0x5C then (c, t)
      else if c = 0x27 then (c, t)
      else if c = 0x22 then (c, t)
      else if c = 0x62 then (0x08, t)
      else if c = 0x66 then (0x0C, t)
      else if c = 0x74 then (0x09, t)
      else if c = 0x6E then (0x0A, t)
      else if c = 0x72 then (0x0D, t)
      else if c = 0x76 then (0x0B, t)
      else if c = 0x61 then (0x07, t)
      else (c, t @ [0x5C]))"

text \<open>
  The second \<^verbatim>\<open>switch\<close> (lines 367 to 414): the new \<^verbatim>\<open>cur_char\<close>, \<^verbatim>\<open>quoted\<close> and
  \<^verbatim>\<open>terminal\<close>.
\<close>

definition escape_char :: "ucs4 \<Rightarrow> ucs4 list \<Rightarrow> ucs4 list \<Rightarrow> ucs4 \<times> ucs4 list \<times> ucs4 list" where
  "escape_char c q t =
     (if c = 0x5C then (c, q, t)
      else if c = 0x27 then (c, q, t)
      else if c = 0x22 then (c, if q \<noteq> [] then q @ [0x5C] else q, t)
      else if c = 0x62 then (0x08, q, t)
      else if c = 0x66 then (0x0C, q, t)
      else if c = 0x74 then (0x09, q, t)
      else if c = 0x6E then (0x0A, q, t)
      else if c = 0x72 then (0x0D, q, t)
      else if c = 0x76 then (0x0B, q, t)
      else if c = 0x61 then (0x07, q, t)
      else if q \<noteq> [] then (c, q @ [0x5C], t)
      else (c, q, t @ [0x5C]))"

text \<open>
  The decimal digits of the loop counter, as \<^verbatim>\<open>error_msg << i\<close> writes them, and the
  text of a C string literal as code points.
\<close>

fun decimal :: "nat \<Rightarrow> ucs4 list" where
  "decimal n = (if n < 10 then [48 + n] else decimal (n div 10) @ [48 + n mod 10])"

declare decimal.simps [simp del]

definition ascii :: "string \<Rightarrow> ucs4 list" where
  "ascii cs = map of_char cs"

text \<open>
  The message of the \<^verbatim>\<open>ValueError\<close> raised at lines 467 to 473.  The copy of the input is
  made by \<^verbatim>\<open>std::wstring wcopy = copy\<close> from a \<^verbatim>\<open>wchar_t*\<close>, which reads a
  null-terminated string: it ends before the first code point 0 of the input.
\<close>

definition wcopy :: "ucs4 list \<Rightarrow> ucs4 list" where
  "wcopy s = takeWhile (\<lambda>c. c \<noteq> 0) s"

definition extra_close_msg :: "nat \<Rightarrow> ucs4 list \<Rightarrow> ucs4 list" where
  "extra_close_msg i s =
     ascii ''Extra close parenthesis at index '' @ decimal i @ ascii '' of '' @ wcopy s"

text \<open>
  The copy is converted to UTF-8 by \<^verbatim>\<open>wstring_to_string\<close> (lines 260 to 264) and the
  bytes are decoded again by \<^verbatim>\<open>PyErr_SetString\<close> (line 473).  On Unicode scalar values
  this is the identity.  A Python string may also hold a lone surrogate (a code point
  from D800 to DFFF): then the conversion or the decoding fails, and what is raised
  depends on the C++ library and on the version of CPython (a \<^verbatim>\<open>ValueError\<close> without a
  message, a \<^verbatim>\<open>UnicodeDecodeError\<close>, or a C++ exception).  The model keeps this apart
  as the outcome \<open>EncodingFailure\<close>, which carries neither the index nor the text.
\<close>

definition is_surrogate :: "ucs4 \<Rightarrow> bool" where
  "is_surrogate c = (0xD800 \<le> c \<and> c \<le> 0xDFFF)"

definition extra_close_error :: "nat \<Rightarrow> ucs4 list \<Rightarrow> error" where
  "extra_close_error i s =
     (if \<exists>c\<in>set (wcopy s). is_surrogate c then EncodingFailure
      else ValueError (extra_close_msg i s))"

text \<open>
  Lines 422 to 501 of the loop body: extend or conclude the string literal, or handle a
  code point outside of one.  \<open>s\<close> is the whole input and \<open>i\<close> the index of \<open>c\<close> in it.
\<close>

definition classify :: "ucs4 list \<Rightarrow> nat \<Rightarrow> parser_state \<Rightarrow> ucs4 \<Rightarrow> error + parser_state" where
  "classify s i st c =
     (if quoted st \<noteq> [] then
        (if \<not> escaped st \<and> c = c_quote then
           Inr (st\<lparr>return_stack :=
                      append_back (SexpString (quoted st @ [c_quote])) (return_stack st),
                    quoted := []\<rparr>)
         else Inr (st\<lparr>escaped := False, quoted := quoted st @ [c]\<rparr>))
      else if \<not> escaped st then
        (if Py_UNICODE_ISSPACE c then Inr st
         else if c = c_lpar then Inr (st\<lparr>return_stack := [] # return_stack st\<rparr>)
         else if c = c_rpar then
           (case return_stack st of
              [] \<Rightarrow> Inl (extra_close_error i s)
            | children # below \<Rightarrow>
                if below = [] then Inl (extra_close_error i s)
                else Inr (st\<lparr>return_stack := append_back (SexpList children) below\<rparr>))
         else if c = c_quote then Inr (st\<lparr>quoted := [c_quote]\<rparr>)
         else Inr (st\<lparr>escaped := False, terminal := terminal st @ [c]\<rparr>))
      else Inr (st\<lparr>escaped := False, terminal := terminal st @ [c]\<rparr>))"

text \<open>
  Lines 364 to 501: resolve an escaped code point, or consume a backslash and set the
  flag, then go on with \<open>classify\<close>.
\<close>

definition resolve :: "ucs4 list \<Rightarrow> nat \<Rightarrow> parser_state \<Rightarrow> ucs4 \<Rightarrow> error + parser_state" where
  "resolve s i st c =
     (if escaped st then
        (case escape_char c (quoted st) (terminal st) of
           (c', q, t) \<Rightarrow> classify s i (st\<lparr>quoted := q, terminal := t\<rparr>) c')
      else if c = c_escape then Inr (st\<lparr>escaped := True\<rparr>)
      else classify s i st c)"

text \<open>
  The whole loop body (lines 287 to 501).  With a pending terminal the code point either
  concludes it, and is then handled by the rest of the body, or is appended to it.
\<close>

definition loop_body :: "ucs4 list \<Rightarrow> nat \<Rightarrow> parser_state \<Rightarrow> ucs4 \<Rightarrow> error + parser_state" where
  "loop_body s i st cur_char =
     (if terminal st \<noteq> [] then
        (if quoted st \<noteq> [] then Inl (AssertionError (ascii ''quoted is not empty''))
         else
           (case (if escaped st then escape_terminal cur_char (terminal st)
                  else (cur_char, terminal st)) of
              (c, t) \<Rightarrow>
                if \<not> escaped st \<and>
                   (c = c_lpar \<or> c = c_rpar \<or> c = c_quote \<or> Py_UNICODE_ISSPACE c)
                then resolve s i
                       (st\<lparr>return_stack := append_back (SexpString t) (return_stack st),
                           terminal := []\<rparr>) c
                else Inr (st\<lparr>escaped := False, terminal := t @ [c]\<rparr>)))
      else resolve s i st cur_char)"

text \<open>The \<^verbatim>\<open>for\<close> loop over the code points from index \<open>i\<close> on.\<close>

fun sexp_loop :: "ucs4 list \<Rightarrow> nat \<Rightarrow> parser_state \<Rightarrow> ucs4 list \<Rightarrow> error + parser_state" where
  "sexp_loop s i st [] = Inr st"
| "sexp_loop s i st (c # cs) =
     (case loop_body s i st c of
        Inl e \<Rightarrow> Inl e
      | Inr st' \<Rightarrow> sexp_loop s (i + 1) st' cs)"

text \<open>
  The message built at lines 516 to 522 from \<^verbatim>\<open>PyUnicode_Substring\<close> and
  \<^verbatim>\<open>PyUnicode_Concat\<close>.
\<close>

definition malformed_msg :: "ucs4 list \<Rightarrow> ucs4 list" where
  "malformed_msg s =
     ascii ''Malformed sexp: '' @ (if 100 < length s then take 72 s else s)"

text \<open>
  Lines 503 to 539: conclude a pending terminal, then check the stack.  The \<^verbatim>\<open>or\<close> of
  the check is evaluated left to right.
\<close>

definition finish :: "ucs4 list \<Rightarrow> parser_state \<Rightarrow> error + sexp list" where
  "finish s st =
     (let stack = (if terminal st \<noteq> []
                   then append_back (SexpString (terminal st)) (return_stack st)
                   else return_stack st)
      in if length stack \<noteq> 1 then Inl (ValueError (malformed_msg s))
         else if length (last stack) = 0 then Inl (ValueError (malformed_msg s))
         else Inr (last stack))"

definition sexp_parse :: "ucs4 list \<Rightarrow> error + sexp list" where
  "sexp_parse s =
     (case sexp_loop s 0 initial_state s of
        Inl e \<Rightarrow> Inl e
      | Inr st \<Rightarrow> finish s st)"

section \<open>Notions used to state the properties\<close>

text \<open>The atom texts of a node, of a list of nodes and of the accumulator stack.\<close>

fun atoms :: "sexp \<Rightarrow> ucs4 list list" where
  "atoms (SexpString t) = [t]"
| "atoms (SexpList xs) = concat (map atoms xs)"

definition forest_atoms :: "sexp list \<Rightarrow> ucs4 list list" where
  "forest_atoms xs = concat (map atoms xs)"

definition stack_atoms :: "sexp list list \<Rightarrow> ucs4 list list" where
  "stack_atoms stk = concat (map forest_atoms stk)"

text \<open>
  The code points that conclude a pending terminal (line 344), and among them the
  parentheses and whitespace.
\<close>

definition is_delim :: "ucs4 \<Rightarrow> bool" where
  "is_delim c = (c = c_lpar \<or> c = c_rpar \<or> c = c_quote \<or> Py_UNICODE_ISSPACE c)"

definition structural :: "ucs4 \<Rightarrow> bool" where
  "structural c = (c = c_lpar \<or> c = c_rpar \<or> Py_UNICODE_ISSPACE c)"



text \<open>
  The texts that the loop, as it is written, builds in \<open>terminal\<close>: not empty, with a
  parenthesis or whitespace code point only as the first code point, when it is one of
  the control characters 9 to 13, or as the second one after a leading backslash.  It is
  the invariant used in the proofs; it implies \<open>escape_targets_only\<close>.
\<close>

fun bare_text :: "ucs4 list \<Rightarrow> bool" where
  "bare_text [] = False"
| "bare_text [a] = (structural a \<longrightarrow> 9 \<le> a \<and> a \<le> 13)"
| "bare_text (a # b # r) =
     ((structural a \<longrightarrow> 9 \<le> a \<and> a \<le> 13) \<and> (structural b \<longrightarrow> a = c_escape) \<and>
      (\<forall>c\<in>set r. \<not> structural c))"


text \<open>
  The source text between the quotes of a literal is a sequence of pieces: a code point
  other than the double quote and the backslash, or a backslash followed by any code
  point.
\<close>

datatype piece = Plain ucs4 | Escaped ucs4

fun piece_ok :: "piece \<Rightarrow> bool" where
  "piece_ok (Plain c) = (c \<noteq> c_quote \<and> c \<noteq> c_escape)"
| "piece_ok (Escaped c) = True"

fun piece_source :: "piece \<Rightarrow> ucs4 list" where
  "piece_source (Plain c) = [c]"
| "piece_source (Escaped c) = [c_escape, c]"

text \<open>
  What the specification (section 4.1, step 2) says is stored for a piece inside a quoted
  literal: an escaped backslash or apostrophe is the character itself; \<^verbatim>\<open>b f t n r v a\<close>
  give the control character; an escaped double quote is stored as backslash and quote;
  any other escaped code point keeps its backslash.
\<close>

fun spec_stored :: "piece \<Rightarrow> ucs4 list" where
  "spec_stored (Plain c) = [c]"
| "spec_stored (Escaped c) =
     (if c = c_escape \<or> c = 0x27 then [c]
      else if c = c_quote then [c_escape, c_quote]
      else if c = 0x62 then [0x08]
      else if c = 0x66 then [0x0C]
      else if c = 0x74 then [0x09]
      else if c = 0x6E then [0x0A]
      else if c = 0x72 then [0x0D]
      else if c = 0x76 then [0x0B]
      else if c = 0x61 then [0x07]
      else [c_escape, c])"

text \<open>
  The accumulator stack after a pending terminal \<open>t\<close> is concluded (lines 348 to 355 and
  506 to 512).
\<close>

definition flushed :: "sexp list list \<Rightarrow> ucs4 list \<Rightarrow> sexp list list" where
  "flushed stk t = (if t \<noteq> [] then append_back (SexpString t) stk else stk)"

text \<open>
  Modelled from the spec: the serialiser of a parsed tree is not part of the source file.
  Section 8 of the specification describes it as ``re-serializing a parsed tree back into
  s-expression text (joining atoms with single spaces, wrapping list children in
  parentheses)''.  An atom is written as its text, a list as its children joined by single
  spaces between parentheses, and the parse result, which is the Python list of the
  top-level nodes, as these nodes joined by single spaces.
\<close>

fun join_spaces :: "ucs4 list list \<Rightarrow> ucs4 list" where
  "join_spaces [] = []"
| "join_spaces [x] = x"
| "join_spaces (x # y # r) = x @ 0x20 # join_spaces (y # r)"

fun serialize :: "sexp \<Rightarrow> ucs4 list" where
  "serialize (SexpString t) = t"
| "serialize (SexpList xs) = c_lpar # join_spaces (map serialize xs) @ [c_rpar]"

definition serialize_forest :: "sexp list \<Rightarrow> ucs4 list" where
  "serialize_forest xs = join_spaces (map serialize xs)"

text \<open>
  The atom texts that come from an input without backslashes: a bare atom without
  delimiters, or a quoted literal without an inner quote.
\<close>

definition plain_bare :: "ucs4 list \<Rightarrow> bool" where
  "plain_bare t = (t \<noteq> [] \<and> (\<forall>c\<in>set t. \<not> is_delim c \<and> c \<noteq> c_escape))"

definition plain_quoted :: "ucs4 list \<Rightarrow> bool" where
  "plain_quoted t =
     (\<exists>body. t = c_quote # body @ [c_quote] \<and> (\<forall>c\<in>set body. c \<noteq> c_quote \<and> c \<noteq> c_escape))"

definition plain_atom :: "ucs4 list \<Rightarrow> bool" where
  "plain_atom t = (plain_bare t \<or> plain_quoted t)"

text \<open>The terminal that an escaped code point starts (lines 364 to 415 and 496 to 501).\<close>

definition escaped_start :: "ucs4 \<Rightarrow> ucs4 list" where
  "escaped_start c = (case escape_char c [] [] of (c', q, t) \<Rightarrow> t @ [c'])"


text \<open>
  The state inside a quoted literal whose buffer is \<open>qb\<close>, and with \<open>qb\<close> empty the state
  between two elements.
\<close>

abbreviation in_literal :: "sexp list list \<Rightarrow> ucs4 list \<Rightarrow> parser_state" where
  "in_literal stk qb \<equiv> \<lparr>return_stack = stk, quoted = qb, escaped = False, terminal = []\<rparr>"

text \<open>The state outside of a literal, with the pending terminal \<open>t\<close>.\<close>

abbreviation between :: "sexp list list \<Rightarrow> ucs4 list \<Rightarrow> parser_state" where
  "between stk t \<equiv> \<lparr>return_stack = stk, quoted = [], escaped = False, terminal = t\<rparr>"

text \<open>
  The invariant of the loop on an input without backslashes: every atom appended so far is
  plain, the pending terminal holds no delimiter, an open literal begins with its quote and
  holds no other, and the flag is clear.
\<close>

definition plain_inv :: "parser_state \<Rightarrow> bool" where
  "plain_inv st =
     ((\<forall>t\<in>set (stack_atoms (return_stack st)). plain_atom t) \<and>
      (\<forall>c\<in>set (terminal st). \<not> is_delim c \<and> c \<noteq> c_escape) \<and>
      (quoted st \<noteq> [] \<longrightarrow>
         hd (quoted st) = c_quote \<and> (\<forall>c\<in>set (tl (quoted st)). c \<noteq> c_quote \<and> c \<noteq> c_escape)) \<and>
      \<not> escaped st)"

section \<open>Basic facts about the loop\<close>

lemma sexp_loop_append:
  "sexp_loop s i st (xs @ ys) =
     (case sexp_loop s i st xs of
        Inl e \<Rightarrow> Inl e
      | Inr st' \<Rightarrow> sexp_loop s (i + length xs) st' ys)"
  by (induction xs arbitrary: i st) (auto split: sum.splits)

lemma escape_char_quoted:
  "escape_char c q t = (c', q', t') \<Longrightarrow> (q' = [] \<longleftrightarrow> q = []) \<and> (q \<noteq> [] \<longrightarrow> t' = t)"
  by (auto simp: escape_char_def split: if_splits)

lemma loop_body_escaped:
  "loop_body s i st c = Inr st' \<Longrightarrow> escaped st' \<Longrightarrow>
     c = c_escape \<and> \<not> escaped st \<and> terminal st = [] \<and> st' = st\<lparr>escaped := True\<rparr>"
  by (auto simp: loop_body_def resolve_def classify_def Py_UNICODE_ISSPACE_def Py_ascii_whitespace_def
      split: if_splits prod.splits list.splits)

lemma classify_exclusive:
  "terminal st = [] \<or> (quoted st = [] \<and> escaped st) \<Longrightarrow> classify s i st c = Inr st' \<Longrightarrow>
     terminal st' = [] \<or> quoted st' = []"
  by (auto simp: classify_def split: if_splits list.splits)

lemma loop_body_exclusive:
  "terminal st = [] \<or> quoted st = [] \<Longrightarrow> loop_body s i st c = Inr st' \<Longrightarrow>
     terminal st' = [] \<or> quoted st' = []"
  apply (auto simp: loop_body_def resolve_def split: if_splits prod.splits dest!: classify_exclusive[rotated])
  apply (auto dest: escape_char_quoted)
  done

lemma loop_body_error:
  "loop_body s i st c = Inl e \<Longrightarrow>
     (e = AssertionError (ascii ''quoted is not empty'') \<and> terminal st \<noteq> [] \<and> quoted st \<noteq> [])
     \<or> e = extra_close_error i s"
  by (auto simp: loop_body_def resolve_def classify_def split: if_splits prod.splits list.splits)

lemmas parser_defs = sexp_parse_def ascii_def initial_state_def loop_body_def resolve_def
  classify_def finish_def Py_UNICODE_ISSPACE_def Py_ascii_whitespace_def PyUnicode_IsWhitespace_def
  escape_char_def escape_terminal_def malformed_msg_def extra_close_msg_def wcopy_def
  extra_close_error_def is_surrogate_def

lemma sexp_loop_exclusive:
  "terminal st = [] \<or> quoted st = [] \<Longrightarrow> sexp_loop s i st cs = Inr st' \<Longrightarrow>
     terminal st' = [] \<or> quoted st' = []"
proof (induction cs arbitrary: i st)
  case Nil
  then show ?case by simp
next
  case (Cons c cs)
  then obtain st1 where b: "loop_body s i st c = Inr st1" and r: "sexp_loop s (i + 1) st1 cs = Inr st'"
    by (auto split: sum.splits)
  from loop_body_exclusive [OF Cons.prems(1) b] Cons.IH r show ?case by blast
qed

lemma sexp_loop_error:
  "terminal st = [] \<or> quoted st = [] \<Longrightarrow> sexp_loop s i st cs = Inl e \<Longrightarrow>
     \<exists>j. e = extra_close_error j s"
proof (induction cs arbitrary: i st)
  case Nil
  then show ?case by simp
next
  case (Cons c cs)
  show ?case
  proof (cases "loop_body s i st c")
    case (Inl e')
    with Cons.prems have "e = e'" by simp
    with loop_body_error [OF Inl] Cons.prems(1) show ?thesis by auto
  next
    case (Inr st1)
    with Cons.prems have "sexp_loop s (i + 1) st1 cs = Inl e" by simp
    with Cons.IH loop_body_exclusive [OF Cons.prems(1) Inr] show ?thesis by blast
  qed
qed

lemma initial_exclusive: "terminal initial_state = [] \<or> quoted initial_state = []"
  by (simp add: initial_state_def)

text \<open>
  Claim C7.  The branch that raises \<^verbatim>\<open>AssertionError\<close> (lines 292 to 302) needs a
  non-empty \<open>terminal\<close> together with a non-empty \<open>quoted\<close>.  Every step of the loop body
  keeps the two buffers from being non-empty together, every state the loop reaches
  from the initial state has one of them empty, and so for every input the parse never
  ends with an \<^verbatim>\<open>AssertionError\<close>.
\<close>

theorem assertion_error_unreachable:
  "(\<forall>i st c st'. (terminal st = [] \<or> quoted st = []) \<longrightarrow> loop_body s i st c = Inr st' \<longrightarrow>
        (terminal st' = [] \<or> quoted st' = []))
   \<and> (\<forall>n st. sexp_loop s 0 initial_state (take n s) = Inr st \<longrightarrow>
        (terminal st = [] \<or> quoted st = []))
   \<and> (\<forall>m. sexp_parse s \<noteq> Inl (AssertionError m))"
proof (intro conjI allI impI)
  fix i st c st'
  assume "terminal st = [] \<or> quoted st = []" "loop_body s i st c = Inr st'"
  then show "terminal st' = [] \<or> quoted st' = []" by (rule loop_body_exclusive)
next
  fix n st
  assume "sexp_loop s 0 initial_state (take n s) = Inr st"
  with initial_exclusive show "terminal st = [] \<or> quoted st = []" by (rule sexp_loop_exclusive)
next
  fix m
  show "sexp_parse s \<noteq> Inl (AssertionError m)"
  proof
    assume a: "sexp_parse s = Inl (AssertionError m)"
    show False
    proof (cases "sexp_loop s 0 initial_state s")
      case (Inl e)
      with a have "e = AssertionError m" by (simp add: sexp_parse_def)
      with sexp_loop_error [OF initial_exclusive Inl] show False
        by (auto simp: extra_close_error_def split: if_splits)
    next
      case (Inr st)
      with a show False by (auto simp: sexp_parse_def finish_def Let_def split: if_splits)
    qed
  qed
qed

text \<open>
  At the input \<^verbatim>\<open>a"b"\<close>: the state before the closing quote, the step that reads it,
  and the outcome of the parse.
\<close>

theorem assertion_error_unreachable_witness:
  "sexp_loop [97, 34, 98, 34] 0 initial_state (take 3 [97, 34, 98, 34]) =
     Inr \<lparr>return_stack = [[SexpString [97]]], quoted = [34, 98], escaped = False, terminal = []\<rparr>
   \<and> loop_body [97, 34, 98, 34] 3
        \<lparr>return_stack = [[SexpString [97]]], quoted = [34, 98], escaped = False, terminal = []\<rparr> 34 =
     Inr \<lparr>return_stack = [[SexpString [97], SexpString [34, 98, 34]]], quoted = [], escaped = False, terminal = []\<rparr>
   \<and> sexp_parse [97, 34, 98, 34] \<noteq> Inl (AssertionError (ascii ''quoted is not empty''))"
  using assertion_error_unreachable [of "[97, 34, 98, 34]"]
  by (simp add: parser_defs)

lemma extra_close_not_malformed:
  "take 16 (extra_close_msg j s) \<noteq> ascii ''Malformed sexp: ''"
  by (simp add: extra_close_msg_def ascii_def)

lemma loop_lpars:
  "sexp_loop s i \<lparr>return_stack = stk, quoted = [], escaped = False, terminal = []\<rparr> (replicate n c_lpar) =
     Inr \<lparr>return_stack = replicate n [] @ stk, quoted = [], escaped = False, terminal = []\<rparr>"
proof (induction n arbitrary: i stk)
  case 0
  then show ?case by simp
next
  case (Suc n)
  have "replicate n [] @ [] # stk = replicate (Suc n) [] @ stk" for stk :: "sexp list list"
    by (simp add: replicate_app_Cons_same)
  with Suc show ?case
    by (simp add: loop_body_def resolve_def classify_def Py_UNICODE_ISSPACE_def Py_ascii_whitespace_def)
qed

text \<open>
  Claim C5.  Every error raised after the full pass, that is when the loop has read the
  whole input and the check of the stack at line 514 fails, is a \<^verbatim>\<open>ValueError\<close> whose
  message is \<^verbatim>\<open>Malformed sexp: \<close> followed by the first 72 code points of the input
  when the input is longer than 100 code points, and by the whole input otherwise;
  nothing marks the cut.  No other error has a message that starts with that text: an
  error raised before the end of the input is the one for a close parenthesis.
\<close>

theorem malformed_message_text:
  "(\<forall>st e. sexp_loop s 0 initial_state s = Inr st \<longrightarrow> sexp_parse s = Inl e \<longrightarrow>
       e = ValueError (ascii ''Malformed sexp: '' @ (if 100 < length s then take 72 s else s)))
   \<and> (\<forall>m. sexp_parse s = Inl (ValueError m) \<longrightarrow> take 16 m = ascii ''Malformed sexp: '' \<longrightarrow>
       m = ascii ''Malformed sexp: '' @ (if 100 < length s then take 72 s else s))
   \<and> (\<forall>e' e. sexp_loop s 0 initial_state s = Inl e' \<longrightarrow> sexp_parse s = Inl e \<longrightarrow>
       (\<exists>i. e = extra_close_error i s))"
proof (intro conjI allI impI)
  fix st e
  assume "sexp_loop s 0 initial_state s = Inr st" and "sexp_parse s = Inl e"
  then have "e = ValueError (malformed_msg s)"
    by (auto simp: sexp_parse_def finish_def Let_def split: if_splits)
  then show "e = ValueError (ascii ''Malformed sexp: '' @ (if 100 < length s then take 72 s else s))"
    by (simp add: malformed_msg_def)
next
  fix m
  assume a: "sexp_parse s = Inl (ValueError m)" and p: "take 16 m = ascii ''Malformed sexp: ''"
  show "m = ascii ''Malformed sexp: '' @ (if 100 < length s then take 72 s else s)"
  proof (cases "sexp_loop s 0 initial_state s")
    case (Inl e)
    with a have "e = ValueError m" by (simp add: sexp_parse_def)
    with sexp_loop_error [OF initial_exclusive Inl] obtain j where "m = extra_close_msg j s"
      by (auto simp: extra_close_error_def split: if_splits)
    with p extra_close_not_malformed show ?thesis by blast
  next
    case (Inr st)
    with a have "m = malformed_msg s"
      by (auto simp: sexp_parse_def finish_def Let_def split: if_splits)
    then show ?thesis by (simp add: malformed_msg_def)
  qed
next
  fix e' e
  assume l: "sexp_loop s 0 initial_state s = Inl e'" and "sexp_parse s = Inl e"
  then have "e = e'" by (simp add: sexp_parse_def)
  with sexp_loop_error [OF initial_exclusive l] show "\<exists>i. e = extra_close_error i s" by simp
qed

text \<open>
  The empty input, the input \<^verbatim>\<open>(unterminated\<close>, an input of 100 open parentheses, which
  the message shows in full, and one of 101, of which the message holds 72.
\<close>

theorem malformed_message_text_witness:
  "sexp_parse [] = Inl (ValueError (ascii ''Malformed sexp: ''))
   \<and> sexp_parse (ascii ''(unterminated'') =
       Inl (ValueError (ascii ''Malformed sexp: (unterminated''))
   \<and> sexp_parse (replicate 100 c_lpar) =
       Inl (ValueError (ascii ''Malformed sexp: '' @ replicate 100 c_lpar))
   \<and> sexp_parse (replicate 101 c_lpar) =
       Inl (ValueError (ascii ''Malformed sexp: '' @ replicate 72 c_lpar))"
proof -
  have l0: "sexp_loop [] 0 initial_state [] = Inr initial_state"
    by simp
  have p0: "sexp_parse [] = Inl (ValueError (malformed_msg []))"
    by (simp add: sexp_parse_def finish_def initial_state_def)
  have l1: "sexp_loop (ascii ''(unterminated'') 0 initial_state (ascii ''(unterminated'') =
      Inr \<lparr>return_stack = [[], []], quoted = [], escaped = False,
            terminal = ascii ''unterminated''\<rparr>"
    by (simp add: parser_defs)
  have p1: "sexp_parse (ascii ''(unterminated'') =
      Inl (ValueError (malformed_msg (ascii ''(unterminated'')))"
    by (simp add: sexp_parse_def l1 finish_def)
  have l2: "sexp_loop (replicate n c_lpar) 0 initial_state (replicate n c_lpar) =
      Inr \<lparr>return_stack = replicate n [] @ [[]], quoted = [], escaped = False, terminal = []\<rparr>"
    for n
    by (simp add: initial_state_def loop_lpars)
  have p2: "sexp_parse (replicate (Suc n) c_lpar) =
      Inl (ValueError (malformed_msg (replicate (Suc n) c_lpar)))" for n
    by (simp add: sexp_parse_def l2 finish_def del: replicate_Suc)
  have s100: "(100 :: nat) = Suc 99" and s101: "(101 :: nat) = Suc 100"
    by simp_all
  note t = malformed_message_text [THEN conjunct1, rule_format]
  from t [OF l0 p0] t [OF l1 p1] t [OF l2 [of 100] p2 [of 99, folded s100]]
    t [OF l2 [of 101] p2 [of 100, folded s101]] p0 p1 p2 [of 99, folded s100] p2 [of 100, folded s101]
  show ?thesis by (simp add: ascii_def)
qed

section \<open>The atoms on the accumulator stack\<close>

lemma stack_atoms_append_back:
  "set (stack_atoms (append_back n stk)) \<subseteq> set (atoms n) \<union> set (stack_atoms stk)"
  by (cases stk) (auto simp: stack_atoms_def forest_atoms_def)

lemma stack_atoms_pop:
  "set (stack_atoms (append_back (SexpList children) below)) \<subseteq> set (stack_atoms (children # below))"
  by (cases below) (auto simp: stack_atoms_def forest_atoms_def)

lemma classify_atoms:
  "classify s i st c = Inr st' \<Longrightarrow> t \<in> set (stack_atoms (return_stack st')) \<Longrightarrow>
     t \<in> set (stack_atoms (return_stack st)) \<or>
     (t = quoted st @ [c_quote] \<and> quoted st \<noteq> [] \<and> \<not> escaped st \<and> c = c_quote)"
  apply (auto simp: classify_def split: if_splits list.splits
      dest!: subsetD [OF stack_atoms_append_back] subsetD [OF stack_atoms_pop])
   apply (auto simp: stack_atoms_def forest_atoms_def)
  done

lemma resolve_atoms:
  "resolve s i st c = Inr st' \<Longrightarrow> t \<in> set (stack_atoms (return_stack st')) \<Longrightarrow>
     t \<in> set (stack_atoms (return_stack st)) \<or>
     (t = quoted st @ [c_quote] \<and> quoted st \<noteq> [] \<and> \<not> escaped st \<and> c = c_quote)"
  by (auto simp: resolve_def split: if_splits prod.splits dest!: classify_atoms)

lemma loop_body_atoms:
  "loop_body s i st c = Inr st' \<Longrightarrow> t \<in> set (stack_atoms (return_stack st')) \<Longrightarrow>
     t \<in> set (stack_atoms (return_stack st)) \<or>
     (t = terminal st \<and> terminal st \<noteq> [] \<and> \<not> escaped st \<and> is_delim c) \<or>
     (t = quoted st @ [c_quote] \<and> quoted st \<noteq> [] \<and> \<not> escaped st \<and> c = c_quote \<and> terminal st = [])"
  apply (auto simp: loop_body_def is_delim_def split: if_splits prod.splits dest!: resolve_atoms
     subsetD [OF stack_atoms_append_back])
  done

lemma append_back_nonempty: "stk \<noteq> [] \<Longrightarrow> append_back n stk \<noteq> []"
  by (cases stk) auto

lemma loop_body_stack_nonempty:
  "return_stack st \<noteq> [] \<Longrightarrow> loop_body s i st c = Inr st' \<Longrightarrow> return_stack st' \<noteq> []"
  by (auto simp: loop_body_def resolve_def classify_def append_back_nonempty
      split: if_splits prod.splits list.splits)

lemma sexp_loop_stack_nonempty:
  "return_stack st \<noteq> [] \<Longrightarrow> sexp_loop s i st cs = Inr st' \<Longrightarrow> return_stack st' \<noteq> []"
proof (induction cs arbitrary: i st)
  case Nil
  then show ?case by simp
next
  case (Cons c cs)
  then obtain st1 where b: "loop_body s i st c = Inr st1" and r: "sexp_loop s (i + 1) st1 cs = Inr st'"
    by (auto split: sum.splits)
  from loop_body_stack_nonempty [OF Cons.prems(1) b] Cons.IH r show ?case by blast
qed

lemma escape_char_empty:
  "escape_char c [] [] = (c', q, t) \<Longrightarrow> q = [] \<and> t @ [c'] = escaped_start c"
  by (auto simp: escaped_start_def dest: escape_char_quoted)

lemma loop_body_terminal:
  "loop_body s i st c = Inr st' \<Longrightarrow> terminal st' \<noteq> [] \<Longrightarrow> \<not> (escaped st \<and> terminal st \<noteq> []) \<Longrightarrow>
     (terminal st \<noteq> [] \<and> \<not> is_delim c \<and> terminal st' = terminal st @ [c]) \<or>
     (terminal st = [] \<and> \<not> escaped st \<and> quoted st = [] \<and> \<not> is_delim c \<and> c \<noteq> c_escape \<and>
        terminal st' = [c]) \<or>
     (terminal st = [] \<and> escaped st \<and> quoted st = [] \<and> terminal st' = escaped_start c)"
  apply (cases "terminal st = []")
   apply (cases "quoted st = []")
    apply (auto simp: loop_body_def resolve_def classify_def is_delim_def
      split: if_splits prod.splits list.splits dest: escape_char_empty)[1]
   apply (auto simp: loop_body_def resolve_def classify_def is_delim_def
      split: if_splits prod.splits list.splits dest: escape_char_quoted)[1]
  apply (auto simp: loop_body_def resolve_def classify_def is_delim_def
      split: if_splits prod.splits list.splits)
  done


section \<open>The shape of atom texts\<close>

lemma not_delim_not_structural: "\<not> is_delim c \<Longrightarrow> \<not> structural c"
  by (simp add: is_delim_def structural_def)

lemma bare_text_single: "\<not> is_delim c \<Longrightarrow> bare_text [c]"
  by (simp add: not_delim_not_structural)







lemma forest_atoms_last:
  assumes "stk \<noteq> []"
  shows "set (forest_atoms (last stk)) \<subseteq> set (stack_atoms stk)"
proof
  fix x
  assume x: "x \<in> set (forest_atoms (last stk))"
  from assms have "last stk \<in> set stk" by (rule last_in_set)
  with x show "x \<in> set (stack_atoms stk)"
    unfolding stack_atoms_def by (simp only: set_concat set_map) blast
qed

lemma finish_atoms:
  assumes "finish s st = Inr r" and "t \<in> set (forest_atoms r)"
  shows "t \<in> set (stack_atoms (return_stack st)) \<or> (t = terminal st \<and> terminal st \<noteq> [])"
proof -
  let ?stk = "flushed (return_stack st) (terminal st)"
  from assms(1) have r: "r = last ?stk" and ne: "?stk \<noteq> []"
    by (auto simp: finish_def flushed_def Let_def split: if_splits)
  with assms(2) forest_atoms_last [OF ne] have "t \<in> set (stack_atoms ?stk)" by auto
  then show ?thesis
    using stack_atoms_append_back [of "SexpString (terminal st)" "return_stack st"]
    by (auto simp: flushed_def split: if_splits)
qed








section \<open>Quoted literals\<close>

lemma escape_char_stored:
  "qb \<noteq> [] \<Longrightarrow> escape_char c qb [] = (c', q', t') \<Longrightarrow>
     q' @ [c'] = qb @ spec_stored (Escaped c) \<and> t' = [] \<and> q' \<noteq> []"
  by (auto simp: escape_char_def split: if_splits)

lemma literal_piece:
  assumes "qb \<noteq> []" "piece_ok p"
  shows "sexp_loop s i (in_literal stk qb) (piece_source p @ rest) =
           sexp_loop s (i + length (piece_source p)) (in_literal stk (qb @ spec_stored p)) rest"
proof (cases p)
  case (Plain c)
  with assms show ?thesis
    by (simp add: loop_body_def resolve_def classify_def)
next
  case (Escaped c)
  obtain c' q' t' where e: "escape_char c qb [] = (c', q', t')"
    by (cases "escape_char c qb []") auto
  from escape_char_stored [OF assms(1) e] have "q' @ [c'] = qb @ spec_stored (Escaped c)" "t' = []" "q' \<noteq> []"
    by auto
  with Escaped assms(1) e show ?thesis
    by (simp add: loop_body_def resolve_def classify_def del: spec_stored.simps)
qed

lemma literal_body:
  "qb \<noteq> [] \<Longrightarrow> \<forall>p\<in>set ps. piece_ok p \<Longrightarrow>
     sexp_loop s i (in_literal stk qb) (concat (map piece_source ps) @ rest) =
       sexp_loop s (i + length (concat (map piece_source ps)))
         (in_literal stk (qb @ concat (map spec_stored ps))) rest"
proof (induction ps arbitrary: i qb)
  case Nil
  then show ?case by simp
next
  case (Cons p ps)
  have "sexp_loop s i (in_literal stk qb) (concat (map piece_source (p # ps)) @ rest) =
        sexp_loop s i (in_literal stk qb) (piece_source p @ (concat (map piece_source ps) @ rest))"
    by simp
  also have "\<dots> = sexp_loop s (i + length (piece_source p)) (in_literal stk (qb @ spec_stored p))
                     (concat (map piece_source ps) @ rest)"
    using Cons.prems by (intro literal_piece) auto
  also have "\<dots> = sexp_loop s (i + length (piece_source p) + length (concat (map piece_source ps)))
         (in_literal stk ((qb @ spec_stored p) @ concat (map spec_stored ps))) rest"
    using Cons.prems by (intro Cons.IH) auto
  finally show ?case by (simp add: add.assoc)
qed

lemma literal_open:
  "sexp_loop s i \<lparr>return_stack = stk, quoted = [], escaped = False, terminal = t\<rparr> (c_quote # rest) =
     sexp_loop s (i + 1) (in_literal (flushed stk t) [c_quote]) rest"
  by (simp add: loop_body_def resolve_def classify_def flushed_def Py_UNICODE_ISSPACE_def
      Py_ascii_whitespace_def)

lemma literal_close:
  "qb \<noteq> [] \<Longrightarrow> sexp_loop s i (in_literal stk qb) (c_quote # rest) =
     sexp_loop s (i + 1) (in_literal (append_back (SexpString (qb @ [c_quote])) stk) []) rest"
  by (simp add: loop_body_def resolve_def classify_def)

lemma literal_whole:
  assumes "\<forall>p\<in>set ps. piece_ok p"
  shows "sexp_loop s i \<lparr>return_stack = stk, quoted = [], escaped = False, terminal = t\<rparr>
           (c_quote # concat (map piece_source ps) @ c_quote # rest) =
         sexp_loop s (i + length (concat (map piece_source ps)) + 2)
           (in_literal (append_back (SexpString (c_quote # concat (map spec_stored ps) @ [c_quote]))
              (flushed stk t)) []) rest"
proof -
  let ?n = "length (concat (map piece_source ps))"
  have "sexp_loop s i \<lparr>return_stack = stk, quoted = [], escaped = False, terminal = t\<rparr>
           (c_quote # concat (map piece_source ps) @ c_quote # rest) =
        sexp_loop s (i + 1) (in_literal (flushed stk t) [c_quote])
           (concat (map piece_source ps) @ c_quote # rest)"
    by (rule literal_open)
  also have "\<dots> = sexp_loop s (i + 1 + ?n)
           (in_literal (flushed stk t) ([c_quote] @ concat (map spec_stored ps))) (c_quote # rest)"
    using assms by (intro literal_body) auto
  also have "\<dots> = sexp_loop s (i + 1 + ?n + 1)
           (in_literal (append_back (SexpString (([c_quote] @ concat (map spec_stored ps)) @ [c_quote]))
              (flushed stk t)) []) rest"
    by (intro literal_close) simp
  finally show ?thesis by (simp add: add.commute add.left_commute)
qed

text \<open>
  Claim C3, as amended (the example's input has six code points).  Let the source text
  between the quotes of a literal be any sequence of pieces, and let the literal be read
  in a state outside of a literal, with the flag clear.  Then the loop appends one atom to
  the innermost open list (after concluding a pending terminal); its text begins with the
  opening quote, ends with the closing quote and holds in between what the specification
  says is stored for each piece: in particular an escaped double quote is stored as the
  two code points backslash and quote.  An input that is one such literal parses to that
  single atom.
\<close>

theorem quoted_literal_stored_text:
  assumes "\<forall>p\<in>set ps. piece_ok p"
  shows "sexp_loop s i \<lparr>return_stack = stk, quoted = [], escaped = False, terminal = t\<rparr>
           (c_quote # concat (map piece_source ps) @ [c_quote]) =
         Inr \<lparr>return_stack =
                 append_back (SexpString (c_quote # concat (map spec_stored ps) @ [c_quote]))
                   (flushed stk t),
               quoted = [], escaped = False, terminal = []\<rparr>
       \<and> sexp_parse (c_quote # concat (map piece_source ps) @ [c_quote]) =
           Inr [SexpString (c_quote # concat (map spec_stored ps) @ [c_quote])]
       \<and> spec_stored (Escaped c_quote) = [c_escape, c_quote]"
  using literal_whole [OF assms, where rest = "[]"]
  by (simp add: sexp_parse_def initial_state_def finish_def flushed_def)

text \<open>The literal \<^verbatim>\<open>"a\"b"\<close>, of the pieces \<open>a\<close>, escaped quote, \<open>b\<close>.\<close>

theorem quoted_literal_stored_text_witness:
  "piece_ok (Plain 97) \<and> piece_ok (Escaped c_quote) \<and> piece_ok (Plain 98)
   \<and> sexp_parse [c_quote, 97, c_escape, c_quote, 98, c_quote] =
       Inr [SexpString [c_quote, 97, c_escape, c_quote, 98, c_quote]]"
  using quoted_literal_stored_text [of "[Plain 97, Escaped c_quote, Plain 98]" "[]" 0 "[[]]" "[]"]
  by simp

text \<open>
  Claim C3 as stated fails in its example: the input \<^verbatim>\<open>"a\"b"\<close> has six code points,
  not seven; it is stored unchanged.
\<close>

theorem quoted_example_has_six_code_points:
  "length [c_quote, 97, c_escape, c_quote, 98, c_quote] \<noteq> (7 :: nat)
   \<and> sexp_parse [c_quote, 97, c_escape, c_quote, 98, c_quote] =
       Inr [SexpString [c_quote, 97, c_escape, c_quote, 98, c_quote]]"
  by (simp add: parser_defs)

section \<open>A literal left open at the end of the input\<close>

lemma loop_body_quoted_open:
  "loop_body s i st c = Inr st' \<Longrightarrow> quoted st' \<noteq> [] \<Longrightarrow>
     (quoted st \<noteq> [] \<and> terminal st = [] \<and> return_stack st' = return_stack st) \<or>
     (quoted st = [] \<and> \<not> escaped st \<and> c = c_quote \<and>
        return_stack st' = flushed (return_stack st) (terminal st))"
  apply (cases "quoted st = []")
   apply (auto simp: loop_body_def resolve_def classify_def flushed_def
      split: if_splits prod.splits list.splits dest: escape_char_quoted)
  done

lemma unterminated_literal_stack:
  "sexp_loop s 0 initial_state cs = Inr st \<Longrightarrow> quoted st \<noteq> [] \<Longrightarrow>
     \<exists>p q stp. cs = p @ c_quote # q \<and> sexp_loop s 0 initial_state p = Inr stp \<and>
        quoted stp = [] \<and> \<not> escaped stp \<and>
        return_stack st = flushed (return_stack stp) (terminal stp)"
proof (induction cs arbitrary: st rule: rev_induct)
  case Nil
  then show ?case by (auto simp: initial_state_def)
next
  case (snoc c cs)
  from snoc.prems(1) obtain st1 where l: "sexp_loop s 0 initial_state cs = Inr st1"
    and b: "loop_body s (length cs) st1 c = Inr st"
    by (auto simp: sexp_loop_append split: sum.splits)
  from loop_body_quoted_open [OF b snoc.prems(2)] show ?case
  proof (elim disjE conjE)
    assume q: "quoted st1 \<noteq> []" and r: "return_stack st = return_stack st1"
    from snoc.IH [OF l q] obtain p q' stp where "cs = p @ c_quote # q'"
      "sexp_loop s 0 initial_state p = Inr stp" "quoted stp = []" "\<not> escaped stp"
      "return_stack st1 = flushed (return_stack stp) (terminal stp)"
      by blast
    with r have "cs @ [c] = p @ c_quote # (q' @ [c]) \<and> sexp_loop s 0 initial_state p = Inr stp \<and>
        quoted stp = [] \<and> \<not> escaped stp \<and>
        return_stack st = flushed (return_stack stp) (terminal stp)"
      by simp
    then show ?thesis by blast
  next
    assume "quoted st1 = []" "\<not> escaped st1" "c = c_quote"
      "return_stack st = flushed (return_stack st1) (terminal st1)"
    with l have "cs @ [c] = cs @ c_quote # [] \<and> sexp_loop s 0 initial_state cs = Inr st1 \<and>
        quoted st1 = [] \<and> \<not> escaped st1 \<and>
        return_stack st = flushed (return_stack st1) (terminal st1)"
      by simp
    then show ?thesis by blast
  qed
qed

text \<open>
  What the code does when the input ends inside a quoted literal: no terminal is pending,
  and the accumulator stack is the one the parser had when it read the literal's opening
  quote, after concluding a pending terminal.  The check at line 514 reads the stack
  only, never \<open>quoted\<close>.
\<close>

lemma unterminated_literal_outcome:
  assumes "sexp_loop s 0 initial_state s = Inr st" and "quoted st \<noteq> []"
  shows "terminal st = []
     \<and> (\<exists>p q stp. s = p @ c_quote # q \<and> sexp_loop s 0 initial_state p = Inr stp \<and>
           quoted stp = [] \<and> \<not> escaped stp \<and>
           return_stack st = flushed (return_stack stp) (terminal stp))
     \<and> sexp_parse s =
         (if length (return_stack st) \<noteq> 1 then Inl (ValueError (malformed_msg s))
          else if last (return_stack st) = [] then Inl (ValueError (malformed_msg s))
          else Inr (last (return_stack st)))"
proof -
  from sexp_loop_exclusive [OF initial_exclusive assms(1)] assms(2) have t: "terminal st = []"
    by simp
  with assms(1) have "sexp_parse s =
         (if length (return_stack st) \<noteq> 1 then Inl (ValueError (malformed_msg s))
          else if last (return_stack st) = [] then Inl (ValueError (malformed_msg s))
          else Inr (last (return_stack st)))"
    by (simp add: sexp_parse_def finish_def)
  with t unterminated_literal_stack [OF assms] show ?thesis by blast
qed

text \<open>
  Claim C2 fails on the code.  At the input \<^verbatim>\<open>a "b\<close> the literal is left open at the end
  of the input, the stack holds the top-level list with the atom \<open>a\<close>, and the parse
  succeeds; the literal and everything after its quote is lost, also in
  \<^verbatim>\<open>a "b c (d) ))) (e\<close>.  The check at the end of the pass does reject the other
  unfinished inputs: a lone open literal, an open list, and an open list with an open
  literal.
\<close>

theorem unterminated_literal_accepted:
  "sexp_loop [97, 32, c_quote, 98] 0 initial_state [97, 32, c_quote, 98] =
     Inr \<lparr>return_stack = [[SexpString [97]]], quoted = [c_quote, 98], escaped = False,
          terminal = []\<rparr>
   \<and> sexp_parse [97, 32, c_quote, 98] = Inr [SexpString [97]]
   \<and> sexp_parse (ascii ''a \"b c (d) ))) (e'') = Inr [SexpString [97]]
   \<and> sexp_parse (ascii ''\"abc'') = Inl (ValueError (ascii ''Malformed sexp: \"abc''))
   \<and> sexp_parse (ascii ''a (b'') = Inl (ValueError (ascii ''Malformed sexp: a (b''))
   \<and> sexp_parse (ascii ''(a \"b'') = Inl (ValueError (ascii ''Malformed sexp: (a \"b''))"
  by (simp add: parser_defs)

section \<open>Backslashes, close parentheses and the examples\<close>

lemma loop_body_backslash_pending:
  "terminal st \<noteq> [] \<Longrightarrow> quoted st = [] \<Longrightarrow> \<not> escaped st \<Longrightarrow>
     loop_body s i st c_escape = Inr (st\<lparr>escaped := False, terminal := terminal st @ [c_escape]\<rparr>)"
  by (simp add: loop_body_def Py_UNICODE_ISSPACE_def Py_ascii_whitespace_def)

lemma loop_body_backslash_fresh:
  "terminal st = [] \<Longrightarrow> \<not> escaped st \<Longrightarrow>
     loop_body s i st c_escape = Inr (st\<lparr>escaped := True\<rparr>)"
  by (simp add: loop_body_def resolve_def)

text \<open>
  Claim C1 fails on the code.  A backslash read while the flag is clear and a terminal is
  pending is appended to the terminal by the branch for a pending terminal (line 360),
  which ends the iteration before the test at line 416 is reached; the flag stays clear
  (lemma \<open>loop_body_backslash_pending\<close>; lemma \<open>loop_body_backslash_fresh\<close> is the case
  without a pending terminal, where the flag is set).  At the input \<^verbatim>\<open>tok\nend\<close> the
  step at index 3 does so, and the parse returns one atom whose text is the eight code
  points of the input, with the backslash and without a newline.
\<close>

theorem backslash_after_bare_text_is_kept:
  "loop_body [116, 111, 107, c_escape, 110, 101, 110, 100] 3
       \<lparr>return_stack = [[]], quoted = [], escaped = False, terminal = [116, 111, 107]\<rparr> c_escape =
     Inr \<lparr>return_stack = [[]], quoted = [], escaped = False,
          terminal = [116, 111, 107, c_escape]\<rparr>
   \<and> sexp_parse [116, 111, 107, c_escape, 110, 101, 110, 100] =
       Inr [SexpString [116, 111, 107, c_escape, 110, 101, 110, 100]]"
  by (simp add: parser_defs)

lemma extra_close_raised:
  "quoted st = [] \<Longrightarrow> \<not> escaped st \<Longrightarrow> length (return_stack st) = 1 \<Longrightarrow>
     loop_body s i st c_rpar = Inl (extra_close_error i s)"
  by (cases "return_stack st")
     (auto simp: loop_body_def resolve_def classify_def Py_UNICODE_ISSPACE_def
        Py_ascii_whitespace_def)

lemma wcopy_without_null: "0 \<notin> set s \<Longrightarrow> wcopy s = s"
  by (induction s) (simp_all add: wcopy_def)

lemma extra_close_error_scalar:
  "\<forall>c\<in>set (wcopy s). \<not> is_surrogate c \<Longrightarrow>
     extra_close_error i s = ValueError (extra_close_msg i s)"
  by (simp add: extra_close_error_def)

lemma unmatched_close_paren:
  assumes "i < length s" "s ! i = c_rpar"
    and "sexp_loop s 0 initial_state (take i s) = Inr st"
    and "quoted st = []" "\<not> escaped st" "length (return_stack st) = 1"
  shows "sexp_parse s = Inl (extra_close_error i s)"
proof -
  from assms(1,2) have s: "take i s @ c_rpar # drop (Suc i) s = s"
    by (metis id_take_nth_drop)
  have "sexp_loop s 0 initial_state (take i s @ c_rpar # drop (Suc i) s) =
          Inl (extra_close_error i s)"
    using assms by (simp add: sexp_loop_append extra_close_raised)
  then have "sexp_loop s 0 initial_state s = Inl (extra_close_error i s)"
    by (simp only: s)
  then show ?thesis by (simp add: sexp_parse_def)
qed

text \<open>
  Claim C4 fails on the code in the text that the message carries.  A close parenthesis
  read outside of a literal, with the flag clear and only the top-level list on the stack,
  ends the parse at once with the error of its index (lemmas \<open>extra_close_raised\<close> and
  \<open>unmatched_close_paren\<close>); this is the \<^verbatim>\<open>ValueError\<close> with the message when the copy
  of the input holds no lone surrogate (lemma \<open>extra_close_error_scalar\<close>), and the
  copy is the whole input when the input has no code point 0 (lemma
  \<open>wcopy_without_null\<close>).  The input \<^verbatim>\<open>(a)) \<close> gives index 3.  But at the input of the
  three code points close parenthesis, 0, \<open>A\<close> the message ends after the close
  parenthesis: the copy of the input stops at the code point 0.
\<close>

theorem extra_close_text_stops_at_null:
  "sexp_parse [c_rpar, 0, 65] =
     Inl (ValueError (ascii ''Extra close parenthesis at index 0 of )''))
   \<and> sexp_parse (ascii ''(a)) '') =
     Inl (ValueError (ascii ''Extra close parenthesis at index 3 of (a)) ''))"
  by (simp add: parser_defs decimal.simps)

text \<open>
  Claim C8 as stated fails: the result for \<^verbatim>\<open>(a b (c d) e)\<close> is not a top-level list of
  the four children \<open>a\<close>, \<open>b\<close>, \<open>(c d)\<close>, \<open>e\<close>; the top-level list has one child.
\<close>

theorem example_has_one_top_level_child:
  "sexp_parse (ascii ''(a b (c d) e)'') \<noteq>
     Inr [SexpString (ascii ''a''), SexpString (ascii ''b''),
          SexpList [SexpString (ascii ''c''), SexpString (ascii ''d'')], SexpString (ascii ''e'')]
   \<and> map_sum id length (sexp_parse (ascii ''(a b (c d) e)'')) = Inr 1"
  by (simp add: parser_defs)

text \<open>
  Claim C8, as amended.  Parsing \<^verbatim>\<open>(a b (c d) e)\<close> gives a top-level list with one
  child, the list of the four children atom \<open>a\<close>, atom \<open>b\<close>, the list of the atoms \<open>c\<close>
  and \<open>d\<close>, and atom \<open>e\<close>.
\<close>

theorem example_nested_list:
  "sexp_parse (ascii ''(a b (c d) e)'') =
     Inr [SexpList [SexpString (ascii ''a''), SexpString (ascii ''b''),
            SexpList [SexpString (ascii ''c''), SexpString (ascii ''d'')],
            SexpString (ascii ''e'')]]"
  by (simp add: parser_defs)

lemma classify_input_irrelevant:
  "classify s i st c = Inr st' \<Longrightarrow> classify s2 i2 st c = Inr st'"
  by (auto simp: classify_def split: if_splits list.splits)

lemma resolve_input_irrelevant:
  "resolve s i st c = Inr st' \<Longrightarrow> resolve s2 i2 st c = Inr st'"
  by (auto simp: resolve_def split: if_splits prod.splits intro: classify_input_irrelevant)

lemma loop_body_input_irrelevant:
  "loop_body s i st c = Inr st' \<Longrightarrow> loop_body s2 i2 st c = Inr st'"
  by (auto simp: loop_body_def split: if_splits prod.splits intro: resolve_input_irrelevant)

lemma sexp_loop_input_irrelevant:
  "sexp_loop s i st cs = Inr st' \<Longrightarrow> sexp_loop s2 i2 st cs = Inr st'"
proof (induction cs arbitrary: i i2 st)
  case Nil
  then show ?case by simp
next
  case (Cons c cs)
  then obtain st1 where b: "loop_body s i st c = Inr st1" and r: "sexp_loop s (i + 1) st1 cs = Inr st'"
    by (auto split: sum.splits)
  from loop_body_input_irrelevant [OF b] Cons.IH [OF r] show ?case by simp
qed

lemma finish_success_input_irrelevant:
  assumes "finish s st = Inr r" and "return_stack st2 = return_stack st"
    and "terminal st2 = terminal st"
  shows "finish s2 st2 = Inr r"
proof -
  have "finish s2 st2 =
          (case finish s st of Inl e \<Rightarrow> Inl (ValueError (malformed_msg s2)) | Inr x \<Rightarrow> Inr x)"
    by (simp add: finish_def Let_def assms(2,3))
  with assms(1) show ?thesis by simp
qed

lemma trailing_backslash_discarded:
  assumes "sexp_loop s 0 initial_state s = Inr st" and "escaped st"
  shows "\<exists>p stp. s = p @ [c_escape] \<and> sexp_loop p 0 initial_state p = Inr stp \<and>
           \<not> escaped stp \<and> terminal stp = [] \<and> st = stp\<lparr>escaped := True\<rparr> \<and>
           (\<forall>r. sexp_parse s = Inr r \<longleftrightarrow> sexp_parse p = Inr r)"
proof (cases s rule: rev_cases)
  case Nil
  with assms(1) have "st = initial_state" by simp
  with assms(2) show ?thesis by (simp add: initial_state_def)
next
  case (snoc p c)
  from assms(1) have "sexp_loop s 0 initial_state (p @ [c]) = Inr st"
    by (simp only: snoc [symmetric])
  then obtain stp where l: "sexp_loop s 0 initial_state p = Inr stp"
    and b: "loop_body s (length p) stp c = Inr st"
    by (auto simp: sexp_loop_append split: sum.splits)
  from loop_body_escaped [OF b assms(2)]
  have c: "c = c_escape" and e: "\<not> escaped stp" and t: "terminal stp = []"
    and st: "st = stp\<lparr>escaped := True\<rparr>" by auto
  from sexp_loop_input_irrelevant [OF l] have lp: "sexp_loop p 0 initial_state p = Inr stp" .
  have same: "return_stack st = return_stack stp" "terminal st = terminal stp"
    using st by simp_all
  have iff: "(sexp_parse s = Inr r) = (sexp_parse p = Inr r)" for r
  proof
    assume "sexp_parse s = Inr r"
    with assms(1) have "finish s st = Inr r" by (simp add: sexp_parse_def)
    from finish_success_input_irrelevant [OF this same [symmetric]] lp
    show "sexp_parse p = Inr r" by (simp add: sexp_parse_def)
  next
    assume "sexp_parse p = Inr r"
    with lp have "finish p stp = Inr r" by (simp add: sexp_parse_def)
    from finish_success_input_irrelevant [OF this same] assms(1)
    show "sexp_parse s = Inr r" by (simp add: sexp_parse_def)
  qed
  from snoc c have s: "s = p @ [c_escape]" by simp
  show ?thesis
    by (intro exI conjI allI) (rule s lp e t st iff)+
qed

text \<open>
  Claim C10 fails on the code in its example.  When the flag is set at the end of the
  input, the last code point is a backslash read without a pending terminal, and the
  outcome is that of the input without it (lemma \<open>trailing_backslash_discarded\<close>; the
  input \<open>a\<close>, space, backslash is an example).  But in the input \<open>a\<close>, backslash the
  backslash follows bare
  text: it is appended to the terminal, the flag is clear at the end of the input, and
  the parse returns the atom of the two code points \<open>a\<close>, backslash.
\<close>

theorem trailing_backslash_after_bare_text_is_kept:
  "sexp_parse [97, c_escape] = Inr [SexpString [97, c_escape]]
   \<and> sexp_loop [97, c_escape] 0 initial_state [97, c_escape] =
       Inr \<lparr>return_stack = [[]], quoted = [], escaped = False, terminal = [97, c_escape]\<rparr>"
  by (simp add: parser_defs)

lemma trailing_backslash_example:
  "sexp_parse [97, 32, c_escape] = Inr [SexpString [97]]"
  by (simp add: parser_defs)

section \<open>Parsing a serialised tree\<close>

lemma is_delim_simps:
  "is_delim c_lpar" "is_delim c_rpar" "is_delim c_quote" "is_delim 0x20" "\<not> is_delim c_escape"
  by (simp_all add: is_delim_def Py_UNICODE_ISSPACE_def Py_ascii_whitespace_def)

lemma bare_step:
  "\<not> is_delim c \<Longrightarrow> c \<noteq> c_escape \<Longrightarrow>
     loop_body s i (between stk t) c = Inr (between stk (t @ [c]))"
  by (simp add: loop_body_def resolve_def classify_def is_delim_def)

lemma bare_run:
  "\<forall>c\<in>set cs. \<not> is_delim c \<and> c \<noteq> c_escape \<Longrightarrow>
     sexp_loop s i (between stk t) cs = Inr (between stk (t @ cs))"
  by (induction cs arbitrary: i t) (simp_all add: bare_step)

lemma delim_flushes:
  "is_delim c \<Longrightarrow> loop_body s i (between stk t) c = loop_body s i (between (flushed stk t) []) c"
  by (simp add: loop_body_def flushed_def is_delim_def)

lemma space_step:
  "loop_body s i (between stk t) 0x20 = Inr (between (flushed stk t) [])"
  by (simp add: loop_body_def resolve_def classify_def flushed_def Py_UNICODE_ISSPACE_def
      Py_ascii_whitespace_def)

lemma lpar_step:
  "loop_body s i (between stk t) c_lpar = Inr (between ([] # flushed stk t) [])"
  by (simp add: loop_body_def resolve_def classify_def flushed_def Py_UNICODE_ISSPACE_def
      Py_ascii_whitespace_def)

lemma rpar_step:
  "flushed stk t = children # parent # below \<Longrightarrow>
     loop_body s i (between stk t) c_rpar =
       Inr (between ((parent @ [SexpList children]) # below) [])"
  by (cases "t = []")
     (simp_all add: loop_body_def resolve_def classify_def flushed_def Py_UNICODE_ISSPACE_def
        Py_ascii_whitespace_def)


lemma plain_quoted_loop:
  assumes "plain_quoted t"
  shows "sexp_loop s i (between stk []) t = Inr (between (append_back (SexpString t) stk) [])"
proof -
  from assms obtain body where t: "t = c_quote # body @ [c_quote]"
    and b: "\<forall>c\<in>set body. c \<noteq> c_quote \<and> c \<noteq> c_escape"
    by (auto simp: plain_quoted_def)
  have src: "concat (map piece_source (map Plain body)) = body"
    by (induction body) simp_all
  have sto: "concat (map spec_stored (map Plain body)) = body"
    by (induction body) simp_all
  from b have ok: "\<forall>p\<in>set (map Plain body). piece_ok p" by auto
  note w = literal_whole [OF ok, where s = s and i = i and stk = stk and t = "[]" and rest = "[]",
      unfolded src sto]
  then show ?thesis unfolding t by (simp add: flushed_def del: sexp_loop.simps(2))
qed

lemma serialize_list_loop:
  assumes "\<And>x s i stk. x \<in> set xs \<Longrightarrow> stk \<noteq> [] \<Longrightarrow>
             \<exists>stk' t'. sexp_loop s i (between stk []) (serialize x) = Inr (between stk' t') \<and>
                flushed stk' t' = append_back x stk"
  shows "\<exists>stk' t'. sexp_loop s i (between (ch # below) []) (join_spaces (map serialize xs)) =
            Inr (between stk' t') \<and> flushed stk' t' = (ch @ xs) # below"
  using assms
proof (induction xs arbitrary: i ch)
  case Nil
  have "sexp_loop s i (between (ch # below) []) (join_spaces (map serialize [])) =
          Inr (between (ch # below) []) \<and> flushed (ch # below) [] = (ch @ []) # below"
    by (simp add: flushed_def)
  then show ?case by blast
next
  case (Cons x xs)
  from Cons.prems [where x = x and s = s and i = i and stk = "ch # below"] obtain stk1 t1
    where x: "sexp_loop s i (between (ch # below) []) (serialize x) = Inr (between stk1 t1)"
      and f: "flushed stk1 t1 = (ch @ [x]) # below"
    by auto
  show ?case
  proof (cases xs)
    case Nil
    with x f show ?thesis by auto
  next
    case (Cons y ys)
    have nodes: "\<exists>stk' t'. sexp_loop s i (between stk []) (serialize z) = Inr (between stk' t') \<and>
                flushed stk' t' = append_back z stk"
      if "z \<in> set xs" "stk \<noteq> []" for z s i stk
      using Cons.prems [where x = z and s = s and i = i and stk = stk] that by simp
    from Cons.IH [OF nodes, of "i + length (serialize x) + 1" "ch @ [x]"] obtain stk2 t2
      where r: "sexp_loop s (i + length (serialize x) + 1) (between ((ch @ [x]) # below) [])
                  (join_spaces (map serialize xs)) = Inr (between stk2 t2)"
        and f2: "flushed stk2 t2 = ((ch @ [x]) @ xs) # below"
      by blast
    have "sexp_loop s i (between (ch # below) []) (join_spaces (map serialize (x # xs))) =
          sexp_loop s i (between (ch # below) [])
            (serialize x @ 0x20 # join_spaces (map serialize xs))"
      using Cons by simp
    also have "\<dots> = sexp_loop s (i + length (serialize x)) (between stk1 t1)
            (0x20 # join_spaces (map serialize xs))"
      by (simp add: sexp_loop_append x)
    also have "\<dots> = sexp_loop s (i + length (serialize x) + 1) (between (flushed stk1 t1) [])
            (join_spaces (map serialize xs))"
      by (simp add: space_step)
    also have "\<dots> = Inr (between stk2 t2)"
      by (simp only: f r)
    finally show ?thesis using f2 by auto
  qed
qed

lemma serialize_node_loop:
  "\<forall>t\<in>set (atoms n). plain_atom t \<Longrightarrow> stk \<noteq> [] \<Longrightarrow>
     \<exists>stk' t'. sexp_loop s i (between stk []) (serialize n) = Inr (between stk' t') \<and>
        flushed stk' t' = append_back n stk"
proof (induction n arbitrary: s i stk)
  case (SexpString t)
  then have "plain_bare t \<or> plain_quoted t" by (simp add: plain_atom_def)
  then show ?case
  proof
    assume b: "plain_bare t"
    then have "sexp_loop s i (between stk []) t = Inr (between stk ([] @ t))"
      by (intro bare_run) (simp add: plain_bare_def)
    moreover from b have "flushed stk t = append_back (SexpString t) stk"
      by (simp add: flushed_def plain_bare_def)
    ultimately show ?thesis by auto
  next
    assume "plain_quoted t"
    from plain_quoted_loop [OF this, of s i stk] show ?thesis
      by (auto simp: flushed_def)
  qed
next
  case (SexpList xs)
  from SexpList.prems(2) obtain top rest where stk: "stk = top # rest" by (cases stk) auto
  have nodes: "\<exists>stk' t'. sexp_loop s i (between stk []) (serialize z) = Inr (between stk' t') \<and>
                flushed stk' t' = append_back z stk"
    if "z \<in> set xs" "stk \<noteq> []" for z s i stk
    using SexpList.IH [OF that(1) _ that(2)] SexpList.prems(1) that(1) by auto
  from serialize_list_loop [where xs = xs and s = s and i = "i + 1" and ch = "[]" and below = stk,
      OF nodes]
  obtain stk1 t1
    where l: "sexp_loop s (i + 1) (between ([] # stk) []) (join_spaces (map serialize xs)) =
                Inr (between stk1 t1)"
      and f: "flushed stk1 t1 = xs # stk"
    by auto
  have "sexp_loop s i (between stk []) (serialize (SexpList xs)) =
        sexp_loop s (i + 1) (between ([] # stk) []) (join_spaces (map serialize xs) @ [c_rpar])"
    by (simp add: lpar_step flushed_def)
  also have "\<dots> = Inr (between ((top @ [SexpList xs]) # rest) [])"
    using l f stk by (simp add: sexp_loop_append rpar_step)
  finally show ?case using stk by (auto simp: flushed_def)
qed

lemma parse_serialized:
  assumes "\<forall>t\<in>set (forest_atoms r). plain_atom t" and "r \<noteq> []"
  shows "sexp_parse (serialize_forest r) = Inr r"
proof -
  have nodes: "\<exists>stk' t'. sexp_loop s i (between stk []) (serialize z) = Inr (between stk' t') \<and>
                flushed stk' t' = append_back z stk"
    if "z \<in> set r" "stk \<noteq> []" for z s i stk
    using serialize_node_loop [OF _ that(2), of z s i] assms(1) that(1)
    by (auto simp: forest_atoms_def)
  from serialize_list_loop [where xs = r and s = "serialize_forest r" and i = 0 and ch = "[]"
      and below = "[]", OF nodes]
  obtain stk1 t1
    where l: "sexp_loop (serialize_forest r) 0 initial_state (serialize_forest r) =
                Inr (between stk1 t1)"
      and f: "flushed stk1 t1 = [r]"
    by (auto simp: initial_state_def serialize_forest_def)
  have "finish (serialize_forest r) (between stk1 t1) =
          (let stack = flushed stk1 t1
           in if length stack \<noteq> 1 then Inl (ValueError (malformed_msg (serialize_forest r)))
              else if length (last stack) = 0
                then Inl (ValueError (malformed_msg (serialize_forest r)))
              else Inr (last stack))"
    by (simp add: finish_def flushed_def)
  with f assms(2) have "finish (serialize_forest r) (between stk1 t1) = Inr r"
    by simp
  with l show ?thesis by (simp add: sexp_parse_def)
qed

lemma loop_body_quoted_plain:
  "loop_body s i st c = Inr st' \<Longrightarrow> \<not> escaped st \<Longrightarrow> c \<noteq> c_escape \<Longrightarrow> quoted st' \<noteq> [] \<Longrightarrow>
     (quoted st = [] \<and> quoted st' = [c_quote]) \<or>
     (quoted st \<noteq> [] \<and> c \<noteq> c_quote \<and> quoted st' = quoted st @ [c])"
  by (cases "quoted st = []")
     (auto simp: loop_body_def resolve_def classify_def split: if_splits list.splits)

lemma plain_quoted_closed:
  "q \<noteq> [] \<Longrightarrow> hd q = c_quote \<Longrightarrow> \<forall>c\<in>set (tl q). c \<noteq> c_quote \<and> c \<noteq> c_escape \<Longrightarrow>
     plain_quoted (q @ [c_quote])"
  by (cases q) (auto simp: plain_quoted_def)

lemma loop_body_plain:
  assumes inv: "plain_inv st" and step: "loop_body s i st c = Inr st'" and c: "c \<noteq> c_escape"
  shows "plain_inv st'"
proof -
  from inv have e: "\<not> escaped st" by (simp add: plain_inv_def)
  then have ne: "\<not> (escaped st \<and> terminal st \<noteq> [])" by simp
  have 1: "plain_atom t" if "t \<in> set (stack_atoms (return_stack st'))" for t
    using loop_body_atoms [OF step that] inv
    by (auto simp: plain_inv_def plain_atom_def plain_bare_def plain_quoted_closed)
  have 2: "\<forall>x\<in>set (terminal st'). \<not> is_delim x \<and> x \<noteq> c_escape"
  proof (cases "terminal st' = []")
    case True
    then show ?thesis by simp
  next
    case False
    from inv have t: "\<forall>x\<in>set (terminal st). \<not> is_delim x \<and> x \<noteq> c_escape"
      by (simp add: plain_inv_def)
    from loop_body_terminal [OF step False ne] e
    have "(\<not> is_delim c \<and> terminal st' = terminal st @ [c]) \<or> (\<not> is_delim c \<and> terminal st' = [c])"
      by blast
    then have "set (terminal st') \<subseteq> set (terminal st) \<union> {c}" and "\<not> is_delim c"
      by auto
    with t c show ?thesis by blast
  qed
  have 3: "hd (quoted st') = c_quote \<and> (\<forall>x\<in>set (tl (quoted st')). x \<noteq> c_quote \<and> x \<noteq> c_escape)"
    if "quoted st' \<noteq> []"
    using loop_body_quoted_plain [OF step e c that] inv c
    by (auto simp: plain_inv_def)
  have 4: "\<not> escaped st'"
    using loop_body_escaped [OF step] c by blast
  from 1 2 3 4 show ?thesis by (simp add: plain_inv_def)
qed

lemma sexp_loop_plain:
  "plain_inv st \<Longrightarrow> c_escape \<notin> set cs \<Longrightarrow> sexp_loop s i st cs = Inr st' \<Longrightarrow> plain_inv st'"
proof (induction cs arbitrary: i st)
  case Nil
  then show ?case by simp
next
  case (Cons c cs)
  then obtain st1 where b: "loop_body s i st c = Inr st1" and r: "sexp_loop s (i + 1) st1 cs = Inr st'"
    by (auto split: sum.splits)
  from Cons.prems(2) have c: "c \<noteq> c_escape" and cs: "c_escape \<notin> set cs" by auto
  from loop_body_plain [OF Cons.prems(1) b c] Cons.IH cs r show ?case by blast
qed

lemma plain_inv_initial: "plain_inv initial_state"
  by (simp add: plain_inv_def initial_state_def stack_atoms_def forest_atoms_def)

lemma parse_plain:
  assumes "sexp_parse s = Inr r" and "c_escape \<notin> set s"
  shows "(\<forall>t\<in>set (forest_atoms r). plain_atom t) \<and> r \<noteq> []"
proof -
  from assms(1) obtain st where l: "sexp_loop s 0 initial_state s = Inr st" and f: "finish s st = Inr r"
    by (auto simp: sexp_parse_def split: sum.splits)
  from sexp_loop_plain [OF plain_inv_initial assms(2) l] have inv: "plain_inv st" .
  have "plain_atom t" if "t \<in> set (forest_atoms r)" for t
    using finish_atoms [OF f that] inv
    by (auto simp: plain_inv_def plain_atom_def plain_bare_def)
  moreover from f have "r \<noteq> []"
    by (auto simp: finish_def Let_def split: if_splits)
  ultimately show ?thesis by blast
qed

text \<open>
  Claim C9.  For every input without a backslash on which parsing succeeds, parsing the
  serialisation of the result gives the same result.
\<close>

theorem reparse_serialized:
  "c_escape \<notin> set s \<Longrightarrow> sexp_parse s = Inr r \<Longrightarrow> sexp_parse (serialize_forest r) = Inr r"
  using parse_plain [of s r] by (intro parse_serialized) auto

text \<open>
  The input \<^verbatim>\<open>(a  b(c "d e")f) g\<close> is serialised as \<^verbatim>\<open>(a b (c "d e") f) g\<close>.
\<close>

theorem reparse_serialized_witness:
  "c_escape \<notin> set (ascii ''(a  b(c \"d e\")f) g'')
   \<and> sexp_parse (ascii ''(a  b(c \"d e\")f) g'') =
       Inr [SexpList [SexpString (ascii ''a''), SexpString (ascii ''b''),
              SexpList [SexpString (ascii ''c''), SexpString (ascii ''\"d e\"'')],
              SexpString (ascii ''f'')],
            SexpString (ascii ''g'')]
   \<and> serialize_forest
        [SexpList [SexpString (ascii ''a''), SexpString (ascii ''b''),
              SexpList [SexpString (ascii ''c''), SexpString (ascii ''\"d e\"'')],
              SexpString (ascii ''f'')],
            SexpString (ascii ''g'')] = ascii ''(a b (c \"d e\") f) g''
   \<and> sexp_parse (ascii ''(a b (c \"d e\") f) g'') =
       Inr [SexpList [SexpString (ascii ''a''), SexpString (ascii ''b''),
              SexpList [SexpString (ascii ''c''), SexpString (ascii ''\"d e\"'')],
              SexpString (ascii ''f'')],
            SexpString (ascii ''g'')]"
proof -
  have 1: "c_escape \<notin> set (ascii ''(a  b(c \"d e\")f) g'')"
    by (simp add: ascii_def)
  have 2: "sexp_parse (ascii ''(a  b(c \"d e\")f) g'') =
       Inr [SexpList [SexpString (ascii ''a''), SexpString (ascii ''b''),
              SexpList [SexpString (ascii ''c''), SexpString (ascii ''\"d e\"'')],
              SexpString (ascii ''f'')],
            SexpString (ascii ''g'')]"
    by (simp add: parser_defs)
  have 3: "serialize_forest
        [SexpList [SexpString (ascii ''a''), SexpString (ascii ''b''),
              SexpList [SexpString (ascii ''c''), SexpString (ascii ''\"d e\"'')],
              SexpString (ascii ''f'')],
            SexpString (ascii ''g'')] = ascii ''(a b (c \"d e\") f) g''"
    by (simp add: serialize_forest_def ascii_def)
  from reparse_serialized [OF 1 2] 1 2 3 show ?thesis by simp
qed

end
